theory Spec2Isabelle
  imports Main "HOL-Library.Sublist" "HOL-Library.AList"
begin

section \<open>Strings\<close>

text \<open>
  Python's \<^verbatim>\<open>str\<close> is modelled by HOL's \<^typ>\<open>string\<close>: a character of the model is a
  code point below 256. \<^verbatim>\<open>str.upper\<close> and \<^verbatim>\<open>str.lower\<close> are given by their action on
  the ASCII letters; Python also changes letters outside ASCII, some of them to code points
  above 255, and the model leaves those as they are. The regular expression class
  \<^verbatim>\<open>[A-Z]\<close> matches exactly the 26 ASCII capitals in Python as well.
\<close>

definition ascii_lowercase :: string where
  "ascii_lowercase = ''abcdefghijklmnopqrstuvwxyz''"

definition ascii_uppercase :: string where
  "ascii_uppercase = ''ABCDEFGHIJKLMNOPQRSTUVWXYZ''"

definition upper_char :: "char \<Rightarrow> char" where
  "upper_char c = (case map_of (zip ascii_lowercase ascii_uppercase) c of Some d \<Rightarrow> d | None \<Rightarrow> c)"

definition lower_char :: "char \<Rightarrow> char" where
  "lower_char c = (case map_of (zip ascii_uppercase ascii_lowercase) c of Some d \<Rightarrow> d | None \<Rightarrow> c)"

text \<open>\<^verbatim>\<open>s.upper()\<close> and \<^verbatim>\<open>s.lower()\<close>.\<close>

definition upper :: "string \<Rightarrow> string" where
  "upper s = map upper_char s"

definition lower :: "string \<Rightarrow> string" where
  "lower s = map lower_char s"

text \<open>\<^verbatim>\<open>s.replace(a, b)\<close> for one-character \<^verbatim>\<open>a\<close> and \<^verbatim>\<open>b\<close>.\<close>

definition replace_char :: "char \<Rightarrow> char \<Rightarrow> string \<Rightarrow> string" where
  "replace_char a b s = map (\<lambda>c. if c = a then b else c) s"

text \<open>\<^verbatim>\<open>sep.join(parts)\<close>.\<close>

fun join :: "string \<Rightarrow> string list \<Rightarrow> string" where
  "join sep [] = []"
| "join sep [p] = p"
| "join sep (p # q # ps) = p @ sep @ join sep (q # ps)"

text \<open>
  The characters \<^verbatim>\<open>str.split()\<close> treats as white space, among the code points below
  256: tab, line feed, vertical tab, form feed, carriage return, the four separators 0x1C
  to 0x1F, space, next line (0x85) and no-break space (0xA0).
\<close>

definition is_space :: "char \<Rightarrow> bool" where
  "is_space c \<longleftrightarrow> c \<in> set [CHR 0x09, CHR 0x0A, CHR 0x0B, CHR 0x0C, CHR 0x0D,
                             CHR 0x1C, CHR 0x1D, CHR 0x1E, CHR 0x1F, CHR 0x20,
                             CHR 0x85, CHR 0xA0]"

text \<open>
  \<^verbatim>\<open>s.split()\<close> with no argument: runs of white space separate the words, and no empty
  word is produced.
\<close>

function split :: "string \<Rightarrow> string list" where
  "split s =
     (case dropWhile is_space s of
        [] \<Rightarrow> []
      | c # t \<Rightarrow> (c # takeWhile (\<lambda>d. \<not> is_space d) t) # split (dropWhile (\<lambda>d. \<not> is_space d) t))"
  by pat_completeness auto
termination
proof (relation "measure length")
  show "wf (measure length)" by simp
next
  fix s :: string and c t
  assume "dropWhile is_space s = c # t"
  then have "length s \<ge> Suc (length t)"
    using length_dropWhile_le [of is_space s] by simp
  moreover have "length (dropWhile (\<lambda>d. \<not> is_space d) t) \<le> length t"
    by (rule length_dropWhile_le)
  ultimately show "(dropWhile (\<lambda>d. \<not> is_space d) t, s) \<in> measure length"
    by simp
qed

declare split.simps [simp del]

section \<open>Service metadata\<close>

text \<open>
  The classes of \<^verbatim>\<open>bisslog_schema\<close> that \<^verbatim>\<open>init_flask_app.py\<close> reads. Their declarations
  are not part of this repository; the fields are the ones the code accesses.
\<close>

datatype trigger_enum = HTTP | WEBSOCKET | CONSUMER | SCHEDULE

text \<open>
  \<^verbatim>\<open>TriggerHttp\<close>. \<^verbatim>\<open>allow_cors\<close> is \<open>None\<close> when absent; \<^verbatim>\<open>allowed_origins\<close> and
  \<^verbatim>\<open>mapper\<close> are optional.
\<close>

record trigger_http =
  http_method :: string
  path :: string
  mapper :: "(string \<times> string) list option"
  allow_cors :: "bool option"
  allowed_origins :: "string list option"

text \<open>
  The options of a trigger: \<^verbatim>\<open>isinstance(trigger.options, TriggerHttp)\<close> holds for the
  first constructor only.
\<close>

datatype trigger_options = TriggerHttp trigger_http | OtherOptions

record trigger_info =
  trigger_type :: trigger_enum
  options :: trigger_options

record use_case_info =
  keyname :: string
  triggers :: "trigger_info list"

record service_info =
  service_name :: string
  use_cases :: "(string \<times> use_case_info) list"

section \<open>Errors and effects\<close>

text \<open>
  A raised exception is a value. Exceptions raised by the collaborators (the metadata
  reader, the import machinery, the framework, the mapper, a use case) are whatever the
  collaborator returns.
\<close>

datatype error = TypeError string | ValueError string | Raised string

text \<open>
  What the binder does to the world outside the application object: it imports a module,
  looks a symbol up in it (\<^verbatim>\<open>hasattr\<close>), and prints a line to standard output.
\<close>

datatype event = Imported string | Looked_up string string | Printed string

text \<open>
  A computation that can raise: the events it caused, in order, and either the exception
  that ended it or its value. The state of the application object after an exception is
  not tracked.
\<close>

type_synonym 'a result = "event list \<times> (error + 'a)"

definition return :: "'a \<Rightarrow> 'a result" where
  "return a = ([], Inr a)"

definition emit :: "event \<Rightarrow> unit result" where
  "emit ev = ([ev], Inr ())"

definition lift :: "error + 'a \<Rightarrow> 'a result" where
  "lift r = ([], r)"

definition bind :: "'a result \<Rightarrow> ('a \<Rightarrow> 'b result) \<Rightarrow> 'b result" where
  "bind r k = (case snd r of
                 Inl e \<Rightarrow> (fst r, Inl e)
               | Inr a \<Rightarrow> (fst r @ fst (k a), snd (k a)))"

section \<open>The Flask application\<close>

text \<open>The per-route dictionary handed to \<^verbatim>\<open>flask_cors.CORS\<close>.\<close>

datatype cors_origins = OriginList "string list" | OriginStr string

record cors_config =
  methods :: "string list"
  allow_headers :: "string list"
  supports_credentials :: bool
  origins :: cors_origins

text \<open>
  The view function \<^verbatim>\<open>uc\<close> that \<^verbatim>\<open>_use_case_factory\<close> returns is a closure over the
  copied use case and the mapper object; the record holds what it closes over.
\<close>

record ('f, 'm) view =
  view_fn :: 'f
  view_mapper :: "'m option"

text \<open>The arguments of one \<^verbatim>\<open>app.add_url_rule\<close> call.\<close>

record ('f, 'm) url_rule =
  rule :: string
  endpoint :: string
  rule_methods :: "string list"
  view_func :: "('f, 'm) view"

text \<open>
  The value of a module attribute, and of the variable \<^verbatim>\<open>use_case_function\<close>: Python's
  \<^verbatim>\<open>None\<close> or an object. A module is its attribute table.
\<close>

datatype 'f pyobj = PyNone | Obj 'f

type_synonym 'f module = "string \<Rightarrow> 'f pyobj option"

text \<open>
  The collaborators of the binder, none of them code of this repository: the metadata
  reader, the web framework (\<^verbatim>\<open>Flask(name)\<close>, \<^verbatim>\<open>app.config[k] = v\<close>,
  \<^verbatim>\<open>CORS(app, resources=...)\<close>, \<^verbatim>\<open>app.add_url_rule\<close>, which can reject a rule),
  \<^verbatim>\<open>importlib.import_module\<close>, \<^verbatim>\<open>copy.deepcopy\<close> (which raises on an object that
  cannot be copied), the constructor of \<^verbatim>\<open>Mapper\<close>, and the text a \<^verbatim>\<open>UseCaseInfo\<close>
  formats to. The application object is of an abstract type \<open>'app\<close>.
\<close>

record ('app, 'f, 'm) env =
  read_service_metadata :: "string option \<Rightarrow> string \<Rightarrow> error + service_info"
  Flask :: "string \<Rightarrow> 'app"
  set_config :: "'app \<Rightarrow> string \<Rightarrow> string \<Rightarrow> 'app"
  CORS :: "'app \<Rightarrow> (string \<times> cors_config) list \<Rightarrow> 'app"
  add_url_rule :: "'app \<Rightarrow> ('f, 'm) url_rule \<Rightarrow> error + 'app"
  import_module :: "string \<Rightarrow> error + 'f module"
  deepcopy :: "'f \<Rightarrow> error + 'f"
  Mapper :: "string \<Rightarrow> (string \<times> string) list \<Rightarrow> error + 'm"
  format_use_case_info :: "use_case_info \<Rightarrow> string"

text \<open>Truth value of an optional boolean and of an optional list, as Python tests them.\<close>

definition truthy_bool :: "bool option \<Rightarrow> bool" where
  "truthy_bool b = (case b of None \<Rightarrow> False | Some v \<Rightarrow> v)"

definition truthy_list :: "'a list option \<Rightarrow> bool" where
  "truthy_list l = (case l of None \<Rightarrow> False | Some xs \<Rightarrow> xs \<noteq> [])"

section \<open>The binder\<close>

text \<open>
  \<^verbatim>\<open>_use_case_factory\<close> (lines 43 to 52): the use case is copied, then the mapper is
  built when a table is given. The result is the closure \<^verbatim>\<open>uc\<close>, here the record of the
  copy and the mapper it closes over.
\<close>

definition use_case_factory ::
  "('app, 'f, 'm) env \<Rightarrow> string \<Rightarrow> 'f \<Rightarrow> (string \<times> string) list option \<Rightarrow> error + ('f, 'm) view" where
  "use_case_factory env use_case_name fn mapper_base =
     (case deepcopy env fn of
        Inl e \<Rightarrow> Inl e
      | Inr use_case_fn_copy \<Rightarrow>
          (case mapper_base of
             None \<Rightarrow> Inr \<lparr>view_fn = use_case_fn_copy, view_mapper = None\<rparr>
           | Some base \<Rightarrow>
               (case Mapper env (''Mapper '' @ use_case_name) base of
                  Inl e \<Rightarrow> Inl e
                | Inr m \<Rightarrow> Inr \<lparr>view_fn = use_case_fn_copy, view_mapper = Some m\<rparr>)))"

text \<open>\<^verbatim>\<open>_configure_endpoint_cors\<close> (lines 55 to 72).\<close>

definition configure_endpoint_cors ::
  "('app, 'f, 'm) env \<Rightarrow> 'app \<Rightarrow> string \<Rightarrow> trigger_http \<Rightarrow> 'app" where
  "configure_endpoint_cors env app p trigger_options =
     (if \<not> truthy_bool (allow_cors trigger_options) then app
      else
        let cors_config = \<lparr>methods = [upper (http_method trigger_options)],
                           allow_headers = [''Content-Type'', ''Authorization''],
                           supports_credentials = True,
                           origins = (if truthy_list (allowed_origins trigger_options)
                                      then OriginList (the (allowed_origins trigger_options))
                                      else OriginStr ''*'')\<rparr>
        in CORS env app [(p, cors_config)])"

text \<open>The path conversion of \<^verbatim>\<open>_add_use_case\<close> (line 86).\<close>

definition convert_path :: "string \<Rightarrow> string" where
  "convert_path p = replace_char (CHR ''}'') (CHR ''>'') (replace_char (CHR ''{'') (CHR ''<'') p)"

text \<open>\<^verbatim>\<open>_add_use_case\<close> (lines 75 to 100).\<close>

definition add_use_case ::
  "('app, 'f, 'm) env \<Rightarrow> 'app \<Rightarrow> use_case_info \<Rightarrow> trigger_info \<Rightarrow> 'f \<Rightarrow> error + 'app" where
  "add_use_case env app uci trigger use_case_function =
     (case options trigger of
        OtherOptions \<Rightarrow> Inr app
      | TriggerHttp opts \<Rightarrow>
          let m = upper (http_method opts);
              p = convert_path (path opts);
              app' = configure_endpoint_cors env app p opts
          in case use_case_factory env (keyname uci) use_case_function (mapper opts) of
               Inl e \<Rightarrow> Inl e
             | Inr v \<Rightarrow>
                 add_url_rule env app'
                   \<lparr>rule = p, endpoint = keyname uci, rule_methods = [m], view_func = v\<rparr>)"

text \<open>
  The module and the symbol of a use case (lines 156 to 159):
  \<^verbatim>\<open>f"{use_case_src}.{use_case_info.keyname}"\<close>, where \<^verbatim>\<open>use_case_src\<close> is an optional
  string, and \<^verbatim>\<open>"_".join([i.upper() for i in re.sub(r"([A-Z])", r" \1", keyname).split()])\<close>.
\<close>

definition module_path :: "string option \<Rightarrow> string \<Rightarrow> string" where
  "module_path use_case_src k =
     (case use_case_src of None \<Rightarrow> ''None'' | Some s \<Rightarrow> s) @ ''.'' @ k"

definition camel_spaced :: "string \<Rightarrow> string" where
  "camel_spaced k = concat (map (\<lambda>c. if c \<in> set ascii_uppercase then [CHR '' '', c] else [c]) k)"

definition symbol_name :: "string \<Rightarrow> string" where
  "symbol_name k = join ''_'' (map upper (split (camel_spaced k)))"

definition is_TriggerHttp :: "trigger_options \<Rightarrow> bool" where
  "is_TriggerHttp opts = (case opts of TriggerHttp _ \<Rightarrow> True | OtherOptions \<Rightarrow> False)"

definition qualifying :: "trigger_info \<Rightarrow> bool" where
  "qualifying trigger \<longleftrightarrow> trigger_type trigger = HTTP \<or> trigger_type trigger = WEBSOCKET"

text \<open>
  The body of the loop over the triggers of one use case (lines 151 to 169). The state is
  the application and the variable \<^verbatim>\<open>use_case_function\<close>.
\<close>

definition trigger_body ::
  "('app, 'f, 'm) env \<Rightarrow> string option \<Rightarrow> use_case_info \<Rightarrow> trigger_info \<Rightarrow>
     'app \<times> 'f pyobj \<Rightarrow> ('app \<times> 'f pyobj) result" where
  "trigger_body env use_case_src uci trigger st =
     (case st of (app, use_case_function) \<Rightarrow>
      if \<not> qualifying trigger then return st
      else case use_case_function of
        PyNone \<Rightarrow>
          let name = module_path use_case_src (keyname uci) in
          bind (emit (Imported name)) (\<lambda>_.
          bind (lift (import_module env name)) (\<lambda>module.
          let var = symbol_name (keyname uci) in
          bind (emit (Looked_up name var)) (\<lambda>_.
          case module var of
            Some found \<Rightarrow>
              (case found of
                 Obj f \<Rightarrow>
                   if is_TriggerHttp (options trigger)
                   then bind (lift (add_use_case env app uci trigger f)) (\<lambda>app'. return (app', found))
                   else return (app, found)
               | PyNone \<Rightarrow> return (app, found))
          | None \<Rightarrow>
              bind (emit (Printed (''Use case implementation '' @ [CHR 0x27] @
                                   format_use_case_info env uci @ [CHR 0x27] @ '' not found'')))
                (\<lambda>_. return st))))
      | Obj f \<Rightarrow>
          if is_TriggerHttp (options trigger)
          then bind (lift (add_use_case env app uci trigger f)) (\<lambda>app'. return (app', use_case_function))
          else return st)"

fun triggers_loop ::
  "('app, 'f, 'm) env \<Rightarrow> string option \<Rightarrow> use_case_info \<Rightarrow> trigger_info list \<Rightarrow>
     'app \<times> 'f pyobj \<Rightarrow> ('app \<times> 'f pyobj) result" where
  "triggers_loop env use_case_src uci [] st = return st"
| "triggers_loop env use_case_src uci (trigger # rest) st =
     bind (trigger_body env use_case_src uci trigger st) (triggers_loop env use_case_src uci rest)"

text \<open>The loop over the use cases (lines 147 to 169).\<close>

fun use_cases_loop ::
  "('app, 'f, 'm) env \<Rightarrow> string option \<Rightarrow> use_case_info list \<Rightarrow> 'app \<Rightarrow> 'app result" where
  "use_cases_loop env use_case_src [] app = return app"
| "use_cases_loop env use_case_src (uci # rest) app =
     bind (triggers_loop env use_case_src uci (triggers uci) (app, PyNone))
       (\<lambda>st. use_cases_loop env use_case_src rest (fst st))"

text \<open>\<^verbatim>\<open>init_flask_app\<close> (lines 103 to 171).\<close>

definition init_flask_app ::
  "('app, 'f, 'm) env \<Rightarrow> string option \<Rightarrow> 'app option \<Rightarrow> string \<Rightarrow> string option \<Rightarrow>
     string option \<Rightarrow> string option \<Rightarrow> 'app result" where
  "init_flask_app env metadata_path app encoding secret_key jwt_secret_key use_case_src =
     bind (lift (read_service_metadata env metadata_path encoding)) (\<lambda>service_info.
       let app1 = (case app of None \<Rightarrow> Flask env (service_name service_info) | Some a \<Rightarrow> a);
           app2 = (case secret_key of None \<Rightarrow> app1 | Some k \<Rightarrow> set_config env app1 ''SECRET_KEY'' k);
           app3 = (case jwt_secret_key of None \<Rightarrow> app2
                   | Some k \<Rightarrow> set_config env app2 ''JWT_SECRET_KEY'' k)
       in use_cases_loop env use_case_src (map snd (use_cases service_info)) app3)"

section \<open>The request adapter\<close>

text \<open>
  Python values as the adapter meets them: decoded JSON, URL parameters, header and query
  strings. A number stands for any JSON number; a float takes the same branches below
  (false when zero, not iterable, hashable).
\<close>

datatype pyval =
    PNone
  | PBool bool
  | PInt int
  | PStr string
  | PList "pyval list"
  | PDict "(string \<times> pyval) list"

text \<open>
  What the code reads of \<^verbatim>\<open>flask.request\<close>: the method, the value of
  \<^verbatim>\<open>request.get_json(silent=True)\<close> (\<open>PNone\<close> when the body is absent or is not valid
  JSON), \<^verbatim>\<open>request.view_args\<close>, the items of \<^verbatim>\<open>request.args\<close> and of
  \<^verbatim>\<open>request.headers\<close>, in order.
\<close>

record request =
  req_method :: string
  get_json :: pyval
  view_args :: "(string \<times> pyval) list option"
  args_items :: "(string \<times> string) list"
  headers_items :: "(string \<times> string) list"

text \<open>Truth value of a Python value, and \<^verbatim>\<open>x or y\<close>.\<close>

fun truthy :: "pyval \<Rightarrow> bool" where
  "truthy PNone = False"
| "truthy (PBool b) = b"
| "truthy (PInt n) = (n \<noteq> 0)"
| "truthy (PStr s) = (s \<noteq> [])"
| "truthy (PList xs) = (xs \<noteq> [])"
| "truthy (PDict kvs) = (kvs \<noteq> [])"

definition py_or :: "pyval \<Rightarrow> pyval \<Rightarrow> pyval" where
  "py_or x y = (if truthy x then x else y)"

text \<open>
  The keys of a general dictionary such as \<^verbatim>\<open>more_kwargs\<close>: hashable values, where
  \<^verbatim>\<open>True\<close> and \<^verbatim>\<open>False\<close> are the keys 1 and 0. Lists and dictionaries are unhashable.
\<close>

datatype pykey = KNone | KNum int | KStr string

fun key_of :: "pyval \<Rightarrow> error + pykey" where
  "key_of PNone = Inr KNone"
| "key_of (PBool b) = Inr (KNum (if b then 1 else 0))"
| "key_of (PInt n) = Inr (KNum n)"
| "key_of (PStr s) = Inr (KStr s)"
| "key_of (PList xs) = Inl (TypeError ''unhashable type'')"
| "key_of (PDict kvs) = Inl (TypeError ''unhashable type'')"

text \<open>
  \<^verbatim>\<open>d.update(other)\<close>. A dictionary is merged key by key. Any other argument is iterated,
  and every element must itself be a sequence of exactly two items, the key and the value:
  a list of two, a string of two characters, a dictionary of two keys.
\<close>

fun pair_of :: "pyval \<Rightarrow> error + pyval \<times> pyval" where
  "pair_of (PList [k, v]) = Inr (k, v)"
| "pair_of (PList xs) = Inl (ValueError ''dictionary update sequence element has the wrong length'')"
| "pair_of (PStr [a, b]) = Inr (PStr [a], PStr [b])"
| "pair_of (PStr s) = Inl (ValueError ''dictionary update sequence element has the wrong length'')"
| "pair_of (PDict [(k1, v1), (k2, v2)]) = Inr (PStr k1, PStr k2)"
| "pair_of (PDict kvs) = Inl (ValueError ''dictionary update sequence element has the wrong length'')"
| "pair_of x = Inl (TypeError ''cannot convert dictionary update sequence element to a sequence'')"

fun update_seq :: "(pykey \<times> pyval) list \<Rightarrow> pyval list \<Rightarrow> error + (pykey \<times> pyval) list" where
  "update_seq d [] = Inr d"
| "update_seq d (x # xs) =
     (case pair_of x of
        Inl e \<Rightarrow> Inl e
      | Inr (k, v) \<Rightarrow>
          (case key_of k of
             Inl e \<Rightarrow> Inl e
           | Inr key \<Rightarrow> update_seq (AList.update key v d) xs))"

fun dict_update :: "(pykey \<times> pyval) list \<Rightarrow> pyval \<Rightarrow> error + (pykey \<times> pyval) list" where
  "dict_update d (PDict kvs) = Inr (fold (\<lambda>(k, v). AList.update (KStr k) v) kvs d)"
| "dict_update d (PList xs) = update_seq d xs"
| "dict_update d (PStr s) = update_seq d (map (\<lambda>c. PStr [c]) s)"
| "dict_update d x = Inl (TypeError ''object is not iterable'')"

text \<open>
  A use case is called with positional and keyword arguments; it returns a value or
  raises. The adapter's result comes with the list of the calls it made of the use case.
\<close>

type_synonym 'r use_case = "pyval list \<Rightarrow> (string \<times> pyval) list \<Rightarrow> error + 'r"

type_synonym 'a invoked = "(pyval list \<times> (string \<times> pyval) list) list \<times> (error + 'a)"

text \<open>
  \<^verbatim>\<open>fn(*args, **kwargs, **more_kwargs)\<close>. Python merges the two dictionaries before the
  call: a key present in both is a \<^verbatim>\<open>TypeError\<close>, and so is a key that is not a string.
  Only then is the function called.
\<close>

definition is_KStr :: "pykey \<Rightarrow> bool" where
  "is_KStr k = (case k of KStr s \<Rightarrow> True | _ \<Rightarrow> False)"

definition str_of_key :: "pykey \<Rightarrow> string" where
  "str_of_key k = (case k of KStr s \<Rightarrow> s | _ \<Rightarrow> [])"

definition call_kw ::
  "'r use_case \<Rightarrow> pyval list \<Rightarrow> (string \<times> pyval) list \<Rightarrow> (pykey \<times> pyval) list \<Rightarrow> 'r invoked" where
  "call_kw fn args kwargs more_kwargs =
     (if list_ex (\<lambda>k. k \<in> set (map (KStr \<circ> fst) kwargs)) (map fst more_kwargs)
      then ([], Inl (TypeError ''got multiple values for keyword argument''))
      else if list_ex (\<lambda>k. \<not> is_KStr k) (map fst more_kwargs)
      then ([], Inl (TypeError ''keywords must be strings''))
      else let kw = kwargs @ map (\<lambda>(k, v). (str_of_key k, v)) more_kwargs
           in ([(args, kw)], fn args kw))"

text \<open>
  \<^verbatim>\<open>request.args.to_dict()\<close> keeps the first value of every key, in the order in which
  the keys first occur. \<^verbatim>\<open>dict(request.headers)\<close> reads the header names and looks each
  one up, which gives its first value as well; the names of a request's headers are
  distinct in any case.
\<close>

definition to_dict :: "(string \<times> string) list \<Rightarrow> (string \<times> pyval) list" where
  "to_dict items =
     fold (\<lambda>(k, v) d. if k \<in> set (map fst d) then d else d @ [(k, PStr v)]) items []"

definition dict_of_headers :: "(string \<times> string) list \<Rightarrow> (string \<times> pyval) list" where
  "dict_of_headers items = to_dict items"

text \<open>
  The result of the adapter: the use case's own return value, or the response that
  \<^verbatim>\<open>jsonify\<close> made of it.
\<close>

datatype ('r, 'resp) view_result = Returned 'r | Jsonified 'resp

text \<open>
  \<^verbatim>\<open>_lambda_fn\<close> (lines 24 to 40). \<^verbatim>\<open>Mapper.map\<close> and \<^verbatim>\<open>jsonify\<close> are collaborators
  and arguments of the model. \<^verbatim>\<open>fn\<close> and \<^verbatim>\<open>__mapper__\<close> are keyword-only parameters of
  the function, so its \<^verbatim>\<open>kwargs\<close> never hold a key of either name: the call of line 50
  below sees to that.
\<close>

definition lambda_fn ::
  "('m \<Rightarrow> (string \<times> pyval) list \<Rightarrow> error + (string \<times> pyval) list) \<Rightarrow> ('r \<Rightarrow> error + 'resp) \<Rightarrow>
     request \<Rightarrow> pyval list \<Rightarrow> 'r use_case \<Rightarrow> 'm option \<Rightarrow> (string \<times> pyval) list \<Rightarrow>
     ('r, 'resp) view_result invoked" where
  "lambda_fn mapper_map jsonify request args fn mapper' kwargs =
     (case mapper' of
        None \<Rightarrow>
          (case (if lower (req_method request) \<notin> set [''get'']
                 then dict_update [] (py_or (get_json request) (PDict []))
                 else Inr []) of
             Inl e \<Rightarrow> ([], Inl e)
           | Inr more_kwargs \<Rightarrow>
               (case call_kw fn args kwargs more_kwargs of
                  (calls, res) \<Rightarrow> (calls, map_sum id Returned res)))
      | Some m \<Rightarrow>
          (case mapper_map m
                  [(''path_query'', PDict (case view_args request of None \<Rightarrow> [] | Some [] \<Rightarrow> [] | Some va \<Rightarrow> va)),
                   (''body'', py_or (get_json request) (PDict [])),
                   (''params'', PDict (to_dict (args_items request))),
                   (''headers'', PDict (dict_of_headers (headers_items request)))] of
             Inl e \<Rightarrow> ([], Inl e)
           | Inr res_map \<Rightarrow>
               (case call_kw fn [] res_map [] of
                  (calls, Inl e) \<Rightarrow> (calls, Inl e)
                | (calls, Inr res) \<Rightarrow> (calls, map_sum id Jsonified (jsonify res)))))"

text \<open>
  The view function \<^verbatim>\<open>uc\<close> (lines 49 and 50), which the framework calls with the path
  parameters of the route as keyword arguments: it forwards them with
  \<^verbatim>\<open>_lambda_fn(*args, fn=use_case_fn_copy, __mapper__=mapper, **kwargs)\<close>. Python rejects
  that call when \<^verbatim>\<open>kwargs\<close> holds a key \<^verbatim>\<open>fn\<close> or \<^verbatim>\<open>__mapper__\<close>, before
  \<^verbatim>\<open>_lambda_fn\<close> runs.
\<close>

definition uc ::
  "('m \<Rightarrow> (string \<times> pyval) list \<Rightarrow> error + (string \<times> pyval) list) \<Rightarrow> ('r \<Rightarrow> error + 'resp) \<Rightarrow>
     request \<Rightarrow> ('r use_case, 'm) view \<Rightarrow> pyval list \<Rightarrow> (string \<times> pyval) list \<Rightarrow>
     ('r, 'resp) view_result invoked" where
  "uc mapper_map jsonify request v args kwargs =
     (if list_ex (\<lambda>k. k \<in> set [''fn'', ''__mapper__'']) (map fst kwargs)
      then ([], Inl (TypeError ''got multiple values for keyword argument''))
      else lambda_fn mapper_map jsonify request args (view_fn v) (view_mapper v) kwargs)"

section \<open>The code generator\<close>

text \<open>
  \<^verbatim>\<open>UseCaseCodeInfoClass(name, docs, module, class_name)\<close> and
  \<^verbatim>\<open>UseCaseCodeInfoObject(name, docs, module, var_name)\<close>, as the tests construct them;
  the third constructor stands for any other object.
\<close>

datatype use_case_code_info =
    UseCaseCodeInfoClass string string string string
  | UseCaseCodeInfoObject string string string string
  | OtherObject

record static_python_construct_data =
  build :: string
  importing :: "string \<Rightarrow> string set option"

text \<open>
  Modelled from the spec: \<^verbatim>\<open>BuilderFlaskAppManager._generate_use_case_code_build\<close>, whose
  source file \<^verbatim>\<open>bisslog_flask/builder/builder_flask_app_manager.py\<close> is not among the
  sources (only its tests are). Section 4.6 of the specification: per use case, a
  construct that imports the use case's class or direct callable from its module; for a
  class-based use case it emits an instantiation expression naming the instance
  \<^verbatim>\<open><keyname>_uc\<close>; for an object-based one it references the imported instance under the
  bare keyname; an object of neither variant is a configuration error.
\<close>

fun generate_use_case_code_build ::
  "use_case_code_info \<Rightarrow> error + string \<times> static_python_construct_data" where
  "generate_use_case_code_build (UseCaseCodeInfoClass uc_keyname docs module class_name) =
     (let uc_name = uc_keyname @ ''_uc''
      in Inr (uc_name, \<lparr>build = uc_name @ '' = '' @ class_name @ ''()'',
                        importing = [module \<mapsto> {class_name}]\<rparr>))"
| "generate_use_case_code_build (UseCaseCodeInfoObject uc_keyname docs module var_name) =
     Inr (uc_keyname, \<lparr>build = [], importing = [module \<mapsto> {var_name}]\<rparr>)"
| "generate_use_case_code_build OtherObject = Inl (ValueError ''unsupported use case code info'')"

section \<open>The specification's reading of paths and symbol names\<close>

text \<open>
  A path template, as the specification describes it: literal segments and \<^verbatim>\<open>{name}\<close>
  placeholders, in order. It is written with braces in the metadata and with angle
  brackets for the framework.
\<close>

datatype segment = Literal string | Placeholder string

fun segment_text :: "segment \<Rightarrow> string" where
  "segment_text (Literal s) = s"
| "segment_text (Placeholder n) = n"

fun template_text :: "segment list \<Rightarrow> string" where
  "template_text [] = []"
| "template_text (Literal s # segs) = s @ template_text segs"
| "template_text (Placeholder n # segs) = ''{'' @ n @ ''}'' @ template_text segs"

fun route_text :: "segment list \<Rightarrow> string" where
  "route_text [] = []"
| "route_text (Literal s # segs) = s @ route_text segs"
| "route_text (Placeholder n # segs) = ''<'' @ n @ ''>'' @ route_text segs"

definition brace_free :: "string \<Rightarrow> bool" where
  "brace_free s \<longleftrightarrow> CHR ''{'' \<notin> set s \<and> CHR ''}'' \<notin> set s"

text \<open>
  The symbol name as the specification words it: the keyname is split at camel-case
  boundaries, every upper-case letter starting a new segment, and the upper-cased segments
  are joined with underscores.
\<close>

fun camel_segments :: "string \<Rightarrow> string list" where
  "camel_segments [] = []"
| "camel_segments (c # cs) =
     (case cs of
        [] \<Rightarrow> [[c]]
      | d # _ \<Rightarrow>
          if d \<in> set ascii_uppercase then [c] # camel_segments cs
          else (case camel_segments cs of
                  [] \<Rightarrow> [[c]]
                | seg # segs \<Rightarrow> (c # seg) # segs))"

definition spec_symbol_name :: "string \<Rightarrow> string" where
  "spec_symbol_name k = join ''_'' (map upper (camel_segments k))"

section \<open>A framework that records what it is told\<close>

text \<open>
  An instance of the collaborators for the examples: the application is the record of the
  configuration, the CORS resources and the rules it was given; every rule is accepted;
  every use case can be copied; a mapper is its name and table; a use case formats to its
  keyname.
\<close>

record ('f, 'm) recorded_app =
  app_name :: string
  app_config :: "(string \<times> string) list"
  app_cors :: "(string \<times> cors_config) list list"
  app_rules :: "('f, 'm) url_rule list"

definition recording_env ::
  "service_info \<Rightarrow> (string \<Rightarrow> error + 'f module) \<Rightarrow>
     (('f, string \<times> (string \<times> string) list) recorded_app, 'f, string \<times> (string \<times> string) list) env" where
  "recording_env si modules =
     \<lparr>read_service_metadata = (\<lambda>p enc. Inr si),
      Flask = (\<lambda>n. \<lparr>app_name = n, app_config = [], app_cors = [], app_rules = []\<rparr>),
      set_config = (\<lambda>app k v. app\<lparr>app_config := AList.update k v (app_config app)\<rparr>),
      CORS = (\<lambda>app res. app\<lparr>app_cors := app_cors app @ [res]\<rparr>),
      add_url_rule = (\<lambda>app r. Inr (app\<lparr>app_rules := app_rules app @ [r]\<rparr>)),
      import_module = modules,
      deepcopy = Inr,
      Mapper = (\<lambda>n base. Inr (n, base)),
      format_use_case_info = keyname\<rparr>"

text \<open>
  A service for the examples: \<^verbatim>\<open>myUseCase\<close> has a schedule and two HTTP triggers and its
  module holds the symbol; the module of \<^verbatim>\<open>orphan\<close> imports but holds no symbol;
  \<^verbatim>\<open>nightly\<close> has no HTTP or WebSocket trigger. No other module exists.
\<close>

definition example_http :: "string \<Rightarrow> string \<Rightarrow> trigger_info" where
  "example_http m p =
     \<lparr>trigger_type = HTTP,
      options = TriggerHttp \<lparr>http_method = m, path = p, mapper = None,
                             allow_cors = None, allowed_origins = None\<rparr>\<rparr>"

definition example_schedule :: trigger_info where
  "example_schedule = \<lparr>trigger_type = SCHEDULE, options = OtherOptions\<rparr>"

definition example_my_use_case :: use_case_info where
  "example_my_use_case =
     \<lparr>keyname = ''myUseCase'',
      triggers = [example_schedule, example_http ''get'' ''/users/{id}'', example_http ''post'' ''/users'']\<rparr>"

definition example_orphan :: use_case_info where
  "example_orphan =
     \<lparr>keyname = ''orphan'', triggers = [example_http ''get'' ''/a'', example_http ''get'' ''/b'']\<rparr>"

definition example_nightly :: use_case_info where
  "example_nightly = \<lparr>keyname = ''nightly'', triggers = [example_schedule]\<rparr>"

definition example_service :: service_info where
  "example_service =
     \<lparr>service_name = ''shop'',
      use_cases = [(''orphan'', example_orphan), (''nightly'', example_nightly),
                   (''myUseCase'', example_my_use_case)]\<rparr>"

definition example_module :: "string module" where
  "example_module = (\<lambda>var. if var = ''MY_USE_CASE'' then Some (Obj ''my_use_case'') else None)"

definition empty_module :: "string module" where
  "empty_module = (\<lambda>var. None)"

definition example_modules :: "string \<Rightarrow> error + string module" where
  "example_modules name_of_module =
     (if name_of_module = ''use_cases.myUseCase'' then Inr example_module
      else if name_of_module = ''use_cases.orphan'' then Inr empty_module
      else Inl (Raised ''ModuleNotFoundError''))"

definition example_env ::
  "((string, string \<times> (string \<times> string) list) recorded_app, string,
    string \<times> (string \<times> string) list) env" where
  "example_env = recording_env example_service example_modules"

text \<open>A use case for the examples of the adapter: it returns the arguments it was given.\<close>

definition echo :: "(pyval list \<times> (string \<times> pyval) list) use_case" where
  "echo args kwargs = Inr (args, kwargs)"

section \<open>Evaluation on the examples\<close>

lemma upper_example: "upper ''get'' = ''GET'' \<and> upper ''post'' = ''POST'' \<and> upper ''put'' = ''PUT''"
  by code_simp

lemma lower_example: "lower ''POST'' \<noteq> ''get'' \<and> lower ''PUT'' \<noteq> ''get'' \<and> lower ''GET'' = ''get''"
  by code_simp

lemma symbol_name_example:
  "symbol_name ''myUseCase'' = ''MY_USE_CASE'' \<and> symbol_name ''orphan'' = ''ORPHAN''
   \<and> symbol_name ''nightly'' = ''NIGHTLY''"
  by code_simp

lemma spec_symbol_name_example: "spec_symbol_name ''myUseCase'' = ''MY_USE_CASE''"
  by code_simp

lemma module_path_example:
  "module_path (Some ''use_cases'') ''myUseCase'' = ''use_cases.myUseCase''
   \<and> module_path (Some ''use_cases'') ''orphan'' = ''use_cases.orphan''
   \<and> module_path (Some ''use_cases'') ''nightly'' = ''use_cases.nightly''"
  by (simp add: module_path_def)

lemma qualifying_example:
  "qualifying (example_http m p) \<and> \<not> qualifying example_schedule"
  by (simp add: qualifying_def example_http_def example_schedule_def)

section \<open>The effect type\<close>

lemma bind_return [simp]: "bind (return a) k = k a"
  by (simp add: bind_def return_def)

lemma bind_lift_Inr [simp]: "bind (lift (Inr a)) k = k a"
  by (simp add: bind_def lift_def)

lemma bind_lift_Inl [simp]: "bind (lift (Inl e)) k = ([], Inl e)"
  by (simp add: bind_def lift_def)

lemma bind_emit [simp]: "bind (emit ev) k = (ev # fst (k ()), snd (k ()))"
  by (simp add: bind_def emit_def)

lemma bind_assoc: "bind (bind r k) h = bind r (\<lambda>a. bind (k a) h)"
  by (cases r) (auto simp: bind_def split: sum.splits)

lemma bind_events_value: "bind (evs, Inr a) k = (evs @ fst (k a), snd (k a))"
  by (simp add: bind_def)

lemma snd_bind: "snd (bind r k) = (case snd r of Inl e \<Rightarrow> Inl e | Inr a \<Rightarrow> snd (k a))"
  by (simp add: bind_def split: sum.splits)

lemma fst_bind: "fst (bind r k) = fst r @ (case snd r of Inl e \<Rightarrow> [] | Inr a \<Rightarrow> fst (k a))"
  by (simp add: bind_def split: sum.splits)

section \<open>The CORS policy of a route\<close>

text \<open>
  Claim C1. For every HTTP trigger the per-route CORS policy is this: when \<^verbatim>\<open>allow_cors\<close>
  is false or absent, \<^verbatim>\<open>_configure_endpoint_cors\<close> leaves the application as it is and no
  policy is attached; when it is true, exactly one resource is handed to \<^verbatim>\<open>CORS\<close>, for the
  route's path, whose methods are the singleton list of the upper-cased method, whose allowed
  headers are \<^verbatim>\<open>Content-Type\<close> and \<^verbatim>\<open>Authorization\<close>, which supports credentials, and whose
  origins are the declared list when it is present and not empty, the wildcard \<^verbatim>\<open>*\<close>
  otherwise.
\<close>

theorem cors_policy_of_trigger:
  "configure_endpoint_cors env app p t =
     (if allow_cors t = Some True
      then CORS env app
             [(p, \<lparr>methods = [upper (http_method t)],
                   allow_headers = [''Content-Type'', ''Authorization''],
                   supports_credentials = True,
                   origins = (case allowed_origins t of
                                None \<Rightarrow> OriginStr ''*''
                              | Some [] \<Rightarrow> OriginStr ''*''
                              | Some (x # xs) \<Rightarrow> OriginList (x # xs))\<rparr>)]
      else app)"
  by (cases "allow_cors t"; cases "allowed_origins t")
     (auto simp: configure_endpoint_cors_def truthy_bool_def truthy_list_def split: list.splits)

section \<open>Path conversion\<close>

lemma convert_path_Nil: "convert_path [] = []"
  by (simp add: convert_path_def replace_char_def)

lemma convert_path_append: "convert_path (a @ b) = convert_path a @ convert_path b"
  by (simp add: convert_path_def replace_char_def)

lemma convert_path_open: "convert_path (CHR ''{'' # s) = CHR ''<'' # convert_path s"
  by (simp add: convert_path_def replace_char_def)

lemma convert_path_close: "convert_path (CHR ''}'' # s) = CHR ''>'' # convert_path s"
  by (simp add: convert_path_def replace_char_def)

lemma convert_path_brace_free: "brace_free s \<Longrightarrow> convert_path s = s"
  by (induction s) (auto simp: brace_free_def convert_path_def replace_char_def)

text \<open>
  The conversion is a substitution character by character, whatever the path: the length
  is kept, the two braces become the two angle brackets, every other character stays.
\<close>

lemma convert_path_length: "length (convert_path p) = length p"
  by (simp add: convert_path_def replace_char_def)

lemma convert_path_nth:
  "i < length p \<Longrightarrow>
     convert_path p ! i =
       (if p ! i = CHR ''{'' then CHR ''<'' else if p ! i = CHR ''}'' then CHR ''>'' else p ! i)"
  by (simp add: convert_path_def replace_char_def)

text \<open>
  Claim C2. For every path template, made of literal segments and \<^verbatim>\<open>{name}\<close> placeholders
  (a brace delimits a placeholder, so neither a literal nor a name holds one), the
  conversion yields the same segments in the same order, every placeholder written
  \<^verbatim>\<open><name>\<close> and every literal segment unchanged.
\<close>

theorem convert_path_template:
  assumes "list_all (\<lambda>seg. brace_free (segment_text seg)) t"
  shows "convert_path (template_text t) = route_text t"
  using assms
proof (induction t)
  case Nil
  show ?case by (simp add: convert_path_Nil)
next
  case (Cons seg t)
  then show ?case
    by (cases seg)
       (simp_all add: convert_path_append convert_path_brace_free convert_path_open
          convert_path_close convert_path_Nil)
qed

theorem convert_path_template_witness:
  "list_all (\<lambda>seg. brace_free (segment_text seg))
     [Literal ''/users/'', Placeholder ''id'', Literal ''/posts/'', Placeholder ''postId'']
   \<and> convert_path ''/users/{id}/posts/{postId}'' = ''/users/<id>/posts/<postId>''"
  using convert_path_template
          [of "[Literal ''/users/'', Placeholder ''id'', Literal ''/posts/'', Placeholder ''postId'']"]
  by (simp add: brace_free_def)

section \<open>The symbol and the module of a use case\<close>

lemma split_Nil: "split [] = []"
  by (simp add: split.simps)

lemma split_space: "is_space c \<Longrightarrow> split (c # s) = split s"
  by (subst split.simps, subst (2) split.simps) simp

lemma split_single: "\<not> is_space c \<Longrightarrow> split [c] = [[c]]"
  by (simp add: split.simps split_Nil)

lemma split_word_end: "\<not> is_space c \<Longrightarrow> is_space d \<Longrightarrow> split (c # d # s) = [c] # split (d # s)"
  by (subst split.simps) simp

lemma split_word_cont:
  "\<not> is_space c \<Longrightarrow> \<not> is_space d \<Longrightarrow>
     split (c # d # s) = (c # hd (split (d # s))) # tl (split (d # s))"
  by (subst split.simps, subst (2) split.simps, subst (3) split.simps) simp

lemma split_nonempty: "\<not> is_space d \<Longrightarrow> split (d # s) \<noteq> []"
  by (subst split.simps) simp

lemma camel_spaced_Cons:
  "camel_spaced (c # cs) =
     (if c \<in> set ascii_uppercase then [CHR '' '', c] else [c]) @ camel_spaced cs"
  by (simp add: camel_spaced_def)

lemma space_is_space: "is_space (CHR '' '')"
  by (simp add: is_space_def)

text \<open>
  On a keyname without white space, the words of the spaced keyname are the camel-case
  segments: induction on the keyname, by cases on the character that follows.
\<close>

lemma split_camel_spaced:
  "list_all (\<lambda>c. \<not> is_space c) k \<Longrightarrow> split (camel_spaced k) = camel_segments k"
proof (induction k)
  case Nil
  show ?case by (simp add: camel_spaced_def split_Nil)
next
  case (Cons c cs)
  then have c: "\<not> is_space c" and IH: "split (camel_spaced cs) = camel_segments cs"
    by simp_all
  have step: "split (camel_spaced (c # cs)) = split (c # camel_spaced cs)"
    by (simp add: camel_spaced_Cons split_space space_is_space)
  show ?case
  proof (cases cs)
    case Nil
    then show ?thesis using c step by (simp add: camel_spaced_def split_single)
  next
    case (Cons d ds)
    with Cons.prems have d: "\<not> is_space d" by simp
    show ?thesis
    proof (cases "d \<in> set ascii_uppercase")
      case True
      then have "camel_spaced cs = CHR '' '' # d # camel_spaced ds"
        using Cons by (simp add: camel_spaced_Cons)
      then have "split (c # camel_spaced cs) = [c] # split (camel_spaced cs)"
        using c by (simp add: split_word_end space_is_space)
      then show ?thesis using step IH Cons True by simp
    next
      case False
      then have spaced: "camel_spaced cs = d # camel_spaced ds"
        using Cons by (simp add: camel_spaced_Cons)
      then have "split (c # camel_spaced cs) =
                   (c # hd (split (camel_spaced cs))) # tl (split (camel_spaced cs))"
        using c d by (simp add: split_word_cont)
      moreover have "split (camel_spaced cs) \<noteq> []"
        using spaced d by (simp add: split_nonempty)
      ultimately show ?thesis
        using step IH Cons False by (cases "camel_segments cs") simp_all
    qed
  qed
qed

text \<open>
  Claim C6, as amended. For every use-case keyname without a white-space character, the
  symbol name is the keyname split at its camel-case boundaries (every upper-case letter,
  \<^verbatim>\<open>A\<close> to \<^verbatim>\<open>Z\<close>, starts a new segment), the segments upper-cased and joined with
  underscores; and the module is \<^verbatim>\<open><root>.<keyname>\<close> for the configured source root.
\<close>

theorem symbol_name_camel_case:
  assumes "list_all (\<lambda>c. \<not> is_space c) k"
  shows "symbol_name k = spec_symbol_name k \<and> module_path (Some root) k = root @ ''.'' @ k"
  using assms
  by (simp add: symbol_name_def spec_symbol_name_def split_camel_spaced module_path_def)

theorem symbol_name_camel_case_witness:
  "list_all (\<lambda>c. \<not> is_space c) ''myUseCase''
   \<and> symbol_name ''myUseCase'' = ''MY_USE_CASE''
   \<and> module_path (Some ''use_cases'') ''myUseCase'' = ''use_cases.myUseCase''"
  using symbol_name_camel_case [of "''myUseCase''" "''use_cases''"]
  by (simp add: is_space_def spec_symbol_name_example)

text \<open>
  The claim as it stands speaks of every keyname. A keyname with a blank is split at the
  blank as well, and the blank is dropped: \<^verbatim>\<open>my useCase\<close> has the camel-case segments
  \<^verbatim>\<open>my use\<close> and \<^verbatim>\<open>Case\<close>, but the code names the symbol \<^verbatim>\<open>MY_USE_CASE\<close>.
\<close>

theorem symbol_name_white_space_counterexample:
  "symbol_name ''my useCase'' = ''MY_USE_CASE''
   \<and> spec_symbol_name ''my useCase'' = ''MY USE_CASE''
   \<and> symbol_name ''my useCase'' \<noteq> spec_symbol_name ''my useCase''"
  by code_simp

section \<open>The binder\<close>

lemma triggers_loop_append:
  "triggers_loop env src uci (xs @ ys) st =
     bind (triggers_loop env src uci xs st) (triggers_loop env src uci ys)"
proof (induction xs arbitrary: st)
  case Nil
  show ?case by simp
next
  case (Cons x xs)
  have "triggers_loop env src uci (xs @ ys) =
          (\<lambda>st. bind (triggers_loop env src uci xs st) (triggers_loop env src uci ys))"
    by (rule ext) (rule Cons.IH)
  then show ?case by (simp add: bind_assoc)
qed

lemma use_cases_loop_append:
  "use_cases_loop env src (xs @ ys) app =
     bind (use_cases_loop env src xs app) (use_cases_loop env src ys)"
proof (induction xs arbitrary: app)
  case Nil
  show ?case by simp
next
  case (Cons x xs)
  have "use_cases_loop env src (xs @ ys) =
          (\<lambda>app. bind (use_cases_loop env src xs app) (use_cases_loop env src ys))"
    by (rule ext) (rule Cons.IH)
  then show ?case by (simp add: bind_assoc)
qed

text \<open>A trigger that is neither HTTP nor WebSocket is passed over.\<close>

lemma trigger_body_skip: "\<not> qualifying t \<Longrightarrow> trigger_body env src uci t st = return st"
  by (cases st) (simp add: trigger_body_def)

lemma triggers_loop_skip:
  "list_all (\<lambda>t. \<not> qualifying t) ts \<Longrightarrow> triggers_loop env src uci ts st = return st"
  by (induction ts) (simp_all add: trigger_body_skip)

text \<open>Once the callable is known, a trigger causes no event.\<close>

lemma trigger_body_resolved:
  "trigger_body env src uci t (app, Obj f) =
     lift (if qualifying t \<and> is_TriggerHttp (options t)
           then map_sum id (\<lambda>a. (a, Obj f)) (add_use_case env app uci t f)
           else Inr (app, Obj f))"
  by (cases "add_use_case env app uci t f")
     (simp_all add: trigger_body_def bind_def lift_def return_def)

lemma triggers_loop_resolved_events:
  "fst (triggers_loop env src uci ts (app, Obj f)) = []"
proof (induction ts arbitrary: app)
  case Nil
  show ?case by (simp add: return_def)
next
  case (Cons t ts)
  show ?case
    by (cases "add_use_case env app uci t f") (simp_all add: trigger_body_resolved Cons)
qed

text \<open>The first qualifying trigger, when the module holds the symbol and when it does not.\<close>

lemma trigger_body_locate:
  assumes "import_module env (module_path src (keyname uci)) = Inr m"
      and "m (symbol_name (keyname uci)) = Some (Obj f)"
      and "qualifying t"
  shows "trigger_body env src uci t (app, PyNone) =
           ([Imported (module_path src (keyname uci)),
             Looked_up (module_path src (keyname uci)) (symbol_name (keyname uci))],
            if is_TriggerHttp (options t)
            then map_sum id (\<lambda>a. (a, Obj f)) (add_use_case env app uci t f)
            else Inr (app, Obj f))"
  using assms
  by (cases "add_use_case env app uci t f")
     (simp_all add: trigger_body_def bind_def lift_def emit_def return_def Let_def)

lemma trigger_body_missing:
  assumes "import_module env (module_path src (keyname uci)) = Inr m"
      and "m (symbol_name (keyname uci)) = None"
      and "qualifying t"
  shows "trigger_body env src uci t (app, PyNone) =
           ([Imported (module_path src (keyname uci)),
             Looked_up (module_path src (keyname uci)) (symbol_name (keyname uci)),
             Printed (''Use case implementation '' @ [CHR 0x27] @
                      format_use_case_info env uci @ [CHR 0x27] @ '' not found'')],
            Inr (app, PyNone))"
  using assms by (simp add: trigger_body_def bind_def lift_def emit_def return_def Let_def)

lemma triggers_loop_missing:
  assumes "import_module env (module_path src (keyname uci)) = Inr m"
      and "m (symbol_name (keyname uci)) = None"
  shows "triggers_loop env src uci ts (app, PyNone) =
           (concat (map (\<lambda>t. if qualifying t
                               then [Imported (module_path src (keyname uci)),
                                     Looked_up (module_path src (keyname uci))
                                       (symbol_name (keyname uci)),
                                     Printed (''Use case implementation '' @ [CHR 0x27] @
                                              format_use_case_info env uci @ [CHR 0x27] @
                                              '' not found'')]
                               else []) ts),
            Inr (app, PyNone))"
proof (induction ts)
  case Nil
  show ?case by (simp add: return_def)
next
  case (Cons t ts)
  show ?case
  proof (cases "qualifying t")
    case True
    show ?thesis
      using True Cons by (simp add: trigger_body_missing [OF assms True] bind_events_value)
  next
    case False
    then show ?thesis using Cons by (simp add: trigger_body_skip)
  qed
qed

text \<open>The binder reads the metadata once, before the loops; they do not depend on the reader.\<close>

lemma add_use_case_metadata [simp]:
  "add_use_case (env\<lparr>read_service_metadata := r\<rparr>) app uci t f = add_use_case env app uci t f"
  by (simp add: add_use_case_def configure_endpoint_cors_def use_case_factory_def Let_def
           split: trigger_options.splits option.splits sum.splits)

lemma trigger_body_metadata [simp]:
  "trigger_body (env\<lparr>read_service_metadata := r\<rparr>) src uci t st = trigger_body env src uci t st"
  by (cases st)
     (simp add: trigger_body_def Let_def
           cong: pyobj.case_cong option.case_cong if_cong sum.case_cong)

lemma triggers_loop_metadata [simp]:
  "triggers_loop (env\<lparr>read_service_metadata := r\<rparr>) src uci ts st =
     triggers_loop env src uci ts st"
proof (induction ts arbitrary: st)
  case Nil
  show ?case by simp
next
  case (Cons t ts)
  have "triggers_loop (env\<lparr>read_service_metadata := r\<rparr>) src uci ts =
          triggers_loop env src uci ts"
    by (rule ext) (rule Cons.IH)
  then show ?case by simp
qed

lemma use_cases_loop_metadata [simp]:
  "use_cases_loop (env\<lparr>read_service_metadata := r\<rparr>) src ucs app =
     use_cases_loop env src ucs app"
  by (induction ucs arbitrary: app) simp_all

text \<open>
  A use case whose triggers leave the application and the variable as they were can be
  taken out of the list without changing what the loop returns.
\<close>

lemma use_cases_loop_drop:
  assumes "\<And>a. snd (triggers_loop env src uci (triggers uci) (a, PyNone)) = Inr (a, PyNone)"
  shows "snd (use_cases_loop env src (before @ uci # after) app) =
         snd (use_cases_loop env src (before @ after) app)"
  by (simp add: use_cases_loop_append snd_bind assms cong: sum.case_cong)

lemma example_env_simps:
  "import_module example_env = example_modules"
  "read_service_metadata example_env = (\<lambda>p enc. Inr example_service)"
  "format_use_case_info example_env = keyname"
  by (simp_all add: example_env_def recording_env_def)

lemma example_modules_simps:
  "example_modules ''use_cases.myUseCase'' = Inr example_module"
  "example_modules ''use_cases.orphan'' = Inr empty_module"
  "example_module ''MY_USE_CASE'' = Some (Obj ''my_use_case'')"
  "empty_module v = None"
  by (simp_all add: example_modules_def example_module_def empty_module_def)

text \<open>
  Claim C3, as amended. For every use case whose module imports and holds the symbol with
  a value other than \<^verbatim>\<open>None\<close>, and which has a qualifying (HTTP or WebSocket) trigger: the
  import and the lookup are performed exactly once over the whole trigger list, on the
  first qualifying trigger in declared order (nothing happens before it), and every later
  trigger finds the callable resolved: it causes no event and, when it is an HTTP trigger,
  registers the same callable.
\<close>

theorem callable_located_once:
  assumes "import_module env (module_path src (keyname uci)) = Inr m"
      and "m (symbol_name (keyname uci)) = Some (Obj f)"
      and "triggers uci = pre @ t # post"
      and "list_all (\<lambda>t. \<not> qualifying t) pre"
      and "qualifying t"
  shows "fst (triggers_loop env src uci (triggers uci) (app, PyNone)) =
           [Imported (module_path src (keyname uci)),
            Looked_up (module_path src (keyname uci)) (symbol_name (keyname uci))]
       \<and> triggers_loop env src uci pre (app, PyNone) = return (app, PyNone)
       \<and> fst (trigger_body env src uci t (app, PyNone)) =
           [Imported (module_path src (keyname uci)),
            Looked_up (module_path src (keyname uci)) (symbol_name (keyname uci))]
       \<and> trigger_body env src uci t' (app', Obj f) =
           lift (if qualifying t' \<and> is_TriggerHttp (options t')
                 then map_sum id (\<lambda>a. (a, Obj f)) (add_use_case env app' uci t' f)
                 else Inr (app', Obj f))"
proof -
  note first = trigger_body_locate [OF assms(1,2,5), of app]
  have pre: "triggers_loop env src uci pre (app, PyNone) = return (app, PyNone)"
    by (rule triggers_loop_skip) (rule assms(4))
  have "fst (triggers_loop env src uci (pre @ t # post) (app, PyNone)) =
          [Imported (module_path src (keyname uci)),
           Looked_up (module_path src (keyname uci)) (symbol_name (keyname uci))]"
    by (cases "add_use_case env app uci t f")
       (simp_all add: triggers_loop_append pre first fst_bind triggers_loop_resolved_events)
  then show ?thesis
    using assms(3) by (simp add: pre first trigger_body_resolved)
qed

theorem callable_located_once_witness:
  "import_module example_env (module_path (Some ''use_cases'') (keyname example_my_use_case)) =
     Inr example_module
   \<and> example_module (symbol_name (keyname example_my_use_case)) = Some (Obj ''my_use_case'')
   \<and> triggers example_my_use_case =
       [example_schedule] @ example_http ''get'' ''/users/{id}'' # [example_http ''post'' ''/users'']
   \<and> list_all (\<lambda>t. \<not> qualifying t) [example_schedule]
   \<and> qualifying (example_http ''get'' ''/users/{id}'')
   \<and> fst (triggers_loop example_env (Some ''use_cases'') example_my_use_case
             (triggers example_my_use_case) (Flask example_env ''shop'', PyNone)) =
       [Imported ''use_cases.myUseCase'', Looked_up ''use_cases.myUseCase'' ''MY_USE_CASE'']"
  using callable_located_once
          [where env = example_env and src = "Some ''use_cases''" and uci = example_my_use_case
             and m = example_module and f = "''my_use_case''" and pre = "[example_schedule]"
             and t = "example_http ''get'' ''/users/{id}''"
             and post = "[example_http ''post'' ''/users'']"
             and app = "Flask example_env ''shop''"]
  by (simp add: example_my_use_case_def example_env_simps example_modules_simps
        symbol_name_example module_path_example qualifying_example)

text \<open>
  The claim as it stands speaks of every use case with two qualifying triggers. When the
  module holds no symbol the variable stays \<^verbatim>\<open>None\<close>, and the next qualifying trigger
  imports and looks up again: the use case \<^verbatim>\<open>orphan\<close> of the example, with two HTTP
  triggers, is imported twice.
\<close>

theorem missing_symbol_reimported_counterexample:
  "fst (init_flask_app example_env None None ''utf-8'' None None (Some ''use_cases'')) =
     [Imported ''use_cases.orphan'', Looked_up ''use_cases.orphan'' ''ORPHAN'',
      Printed (''Use case implementation '' @ [CHR 0x27] @ ''orphan'' @ [CHR 0x27] @ '' not found''),
      Imported ''use_cases.orphan'', Looked_up ''use_cases.orphan'' ''ORPHAN'',
      Printed (''Use case implementation '' @ [CHR 0x27] @ ''orphan'' @ [CHR 0x27] @ '' not found''),
      Imported ''use_cases.myUseCase'', Looked_up ''use_cases.myUseCase'' ''MY_USE_CASE'']
   \<and> count_list
        (fst (triggers_loop example_env (Some ''use_cases'') example_orphan (triggers example_orphan)
                (Flask example_env ''shop'', PyNone)))
        (Imported ''use_cases.orphan'') = 2"
  by code_simp

text \<open>
  Claim C7. For every use case whose module imports but does not hold the symbol, binding
  is not fatal: processing its triggers raises nothing and leaves the application as it
  was (no route, no CORS resource); a diagnostic is printed, after the import and the
  lookup, for each qualifying trigger; and \<^verbatim>\<open>init_flask_app\<close> returns what it returns on
  the metadata without that use case: the other use cases are bound as if it had not been
  declared.
\<close>

theorem missing_symbol_is_not_fatal:
  assumes "import_module env (module_path src (keyname uci)) = Inr m"
      and "m (symbol_name (keyname uci)) = None"
  shows "snd (triggers_loop env src uci (triggers uci) (app, PyNone)) = Inr (app, PyNone)
       \<and> fst (triggers_loop env src uci (triggers uci) (app, PyNone)) =
           concat (map (\<lambda>t. if qualifying t
                               then [Imported (module_path src (keyname uci)),
                                     Looked_up (module_path src (keyname uci))
                                       (symbol_name (keyname uci)),
                                     Printed (''Use case implementation '' @ [CHR 0x27] @
                                              format_use_case_info env uci @ [CHR 0x27] @
                                              '' not found'')]
                               else []) (triggers uci))
       \<and> snd (use_cases_loop env src (before @ uci # after) start) =
           snd (use_cases_loop env src (before @ after) start)
       \<and> (read_service_metadata env p enc = Inr si \<and> use_cases si = earlier @ (key, uci) # later \<longrightarrow>
            snd (init_flask_app env p given enc sk jk src) =
            snd (init_flask_app
                   (env\<lparr>read_service_metadata := \<lambda>p enc. Inr (si\<lparr>use_cases := earlier @ later\<rparr>)\<rparr>)
                   p given enc sk jk src))"
proof -
  note loop = triggers_loop_missing [OF assms]
  have drop: "snd (use_cases_loop env src (xs @ uci # ys) a) =
              snd (use_cases_loop env src (xs @ ys) a)" for xs ys a
    by (rule use_cases_loop_drop) (simp add: loop)
  have "snd (init_flask_app env p given enc sk jk src) =
        snd (init_flask_app
               (env\<lparr>read_service_metadata := \<lambda>p enc. Inr (si\<lparr>use_cases := earlier @ later\<rparr>)\<rparr>)
               p given enc sk jk src)"
    if "read_service_metadata env p enc = Inr si" "use_cases si = earlier @ (key, uci) # later"
    using that
    by (cases given; cases sk; cases jk) (simp_all add: init_flask_app_def Let_def drop)
  then show ?thesis
    by (simp add: loop drop)
qed

theorem missing_symbol_is_not_fatal_witness:
  "import_module example_env (module_path (Some ''use_cases'') (keyname example_orphan)) =
     Inr empty_module
   \<and> empty_module (symbol_name (keyname example_orphan)) = None
   \<and> snd (triggers_loop example_env (Some ''use_cases'') example_orphan (triggers example_orphan)
             (Flask example_env ''shop'', PyNone)) = Inr (Flask example_env ''shop'', PyNone)
   \<and> fst (triggers_loop example_env (Some ''use_cases'') example_orphan (triggers example_orphan)
             (Flask example_env ''shop'', PyNone)) =
       [Imported ''use_cases.orphan'', Looked_up ''use_cases.orphan'' ''ORPHAN'',
        Printed (''Use case implementation '' @ [CHR 0x27] @ ''orphan'' @ [CHR 0x27] @ '' not found''),
        Imported ''use_cases.orphan'', Looked_up ''use_cases.orphan'' ''ORPHAN'',
        Printed (''Use case implementation '' @ [CHR 0x27] @ ''orphan'' @ [CHR 0x27] @ '' not found'')]
   \<and> snd (use_cases_loop example_env (Some ''use_cases'')
             ([] @ example_orphan # [example_nightly, example_my_use_case])
             (Flask example_env ''shop'')) =
       snd (use_cases_loop example_env (Some ''use_cases'')
             ([] @ [example_nightly, example_my_use_case]) (Flask example_env ''shop''))"
  using missing_symbol_is_not_fatal
          [where env = example_env and src = "Some ''use_cases''" and uci = example_orphan
             and m = empty_module and app = "Flask example_env ''shop''"
             and start = "Flask example_env ''shop''" and before = "[]"
             and after = "[example_nightly, example_my_use_case]"]
  by (simp add: example_orphan_def example_env_simps example_modules_simps
        symbol_name_example module_path_example qualifying_example)

text \<open>
  Claim C9. For every use case none of whose triggers is of type HTTP or WEBSOCKET (an
  empty trigger list included), processing its triggers causes no event at all (no import,
  no lookup, nothing printed) and returns the application as it was; the loop over the use
  cases, and \<^verbatim>\<open>init_flask_app\<close>, do exactly what they do on the metadata without that use
  case.
\<close>

theorem non_web_use_case_untouched:
  assumes "list_all (\<lambda>t. \<not> qualifying t) (triggers uci)"
  shows "triggers_loop env src uci (triggers uci) (app, PyNone) = return (app, PyNone)
       \<and> use_cases_loop env src (before @ uci # after) start =
           use_cases_loop env src (before @ after) start
       \<and> (read_service_metadata env p enc = Inr si \<and> use_cases si = earlier @ (key, uci) # later \<longrightarrow>
            init_flask_app env p given enc sk jk src =
            init_flask_app
              (env\<lparr>read_service_metadata := \<lambda>p enc. Inr (si\<lparr>use_cases := earlier @ later\<rparr>)\<rparr>)
              p given enc sk jk src)"
proof -
  have skip: "triggers_loop env src uci (triggers uci) st = return st" for st
    by (rule triggers_loop_skip) (rule assms)
  have drop: "use_cases_loop env src (xs @ uci # ys) a = use_cases_loop env src (xs @ ys) a"
    for xs ys a
  proof -
    have "use_cases_loop env src (uci # ys) = use_cases_loop env src ys"
      by (rule ext) (simp add: skip)
    then show ?thesis by (simp add: use_cases_loop_append)
  qed
  have "init_flask_app env p given enc sk jk src =
        init_flask_app
          (env\<lparr>read_service_metadata := \<lambda>p enc. Inr (si\<lparr>use_cases := earlier @ later\<rparr>)\<rparr>)
          p given enc sk jk src"
    if "read_service_metadata env p enc = Inr si" "use_cases si = earlier @ (key, uci) # later"
    using that
    by (cases given; cases sk; cases jk) (simp_all add: init_flask_app_def Let_def drop)
  then show ?thesis
    by (simp add: skip drop)
qed

theorem non_web_use_case_untouched_witness:
  "list_all (\<lambda>t. \<not> qualifying t) (triggers example_nightly)
   \<and> triggers_loop example_env (Some ''use_cases'') example_nightly (triggers example_nightly)
       (Flask example_env ''shop'', PyNone) = ([], Inr (Flask example_env ''shop'', PyNone))
   \<and> read_service_metadata example_env None ''utf-8'' = Inr example_service
   \<and> use_cases example_service =
       [(''orphan'', example_orphan)] @ (''nightly'', example_nightly) #
       [(''myUseCase'', example_my_use_case)]
   \<and> init_flask_app example_env None None ''utf-8'' None None (Some ''use_cases'') =
       init_flask_app
         (example_env\<lparr>read_service_metadata :=
            \<lambda>p enc. Inr (example_service\<lparr>use_cases :=
                           [(''orphan'', example_orphan)] @ [(''myUseCase'', example_my_use_case)]\<rparr>)\<rparr>)
         None None ''utf-8'' None None (Some ''use_cases'')"
  using non_web_use_case_untouched
          [where env = example_env and src = "Some ''use_cases''" and uci = example_nightly
             and app = "Flask example_env ''shop''" and p = None and enc = "''utf-8''"
             and si = example_service and earlier = "[(''orphan'', example_orphan)]"
             and key = "''nightly''" and later = "[(''myUseCase'', example_my_use_case)]"
             and given = None and sk = None and jk = None]
  by (simp add: example_nightly_def example_service_def example_env_simps qualifying_example
        return_def)

section \<open>The request adapter\<close>

lemma update_fresh: "k \<notin> fst ` set al \<Longrightarrow> AList.update k v al = al @ [(k, v)]"
  by (induction al) auto

text \<open>Updating with a dictionary of distinct, new keys appends its items in order.\<close>

lemma fold_update_fresh:
  "distinct (map fst kvs) \<Longrightarrow> (\<forall>k \<in> set (map fst kvs). KStr k \<notin> fst ` set d) \<Longrightarrow>
     fold (\<lambda>(k, v). AList.update (KStr k) v) kvs d = d @ map (\<lambda>(k, v). (KStr k, v)) kvs"
proof (induction kvs arbitrary: d)
  case Nil
  show ?case by simp
next
  case (Cons kv kvs)
  obtain k v where kv: "kv = (k, v)" by (cases kv)
  have fresh: "KStr k \<notin> fst ` set d" using Cons.prems(2) kv by simp
  have "fold (\<lambda>(k, v). AList.update (KStr k) v) kvs (d @ [(KStr k, v)]) =
          (d @ [(KStr k, v)]) @ map (\<lambda>(k, v). (KStr k, v)) kvs"
    using Cons.prems kv by (intro Cons.IH) (auto simp: image_iff)
  then show ?case using kv fresh by (simp add: update_fresh)
qed

lemma fold_update_keys:
  "fst ` set (fold (\<lambda>(k, v). AList.update (KStr k) v) kvs d) =
     fst ` set d \<union> KStr ` fst ` set kvs"
  by (induction kvs arbitrary: d) (auto simp: AList.dom_update split: prod.splits)

lemma call_kw_empty: "call_kw fn args kwargs [] = ([(args, kwargs)], fn args kwargs)"
  by (simp add: call_kw_def)

lemma call_kw_disjoint:
  assumes "\<forall>k \<in> set (map fst kvs). k \<notin> set (map fst kwargs)"
  shows "call_kw fn args kwargs (map (\<lambda>(k, v). (KStr k, v)) kvs) =
           ([(args, kwargs @ kvs)], fn args (kwargs @ kvs))"
proof -
  have a: "\<not> list_ex (\<lambda>k. k \<in> set (map (KStr \<circ> fst) kwargs))
               (map fst (map (\<lambda>(k, v). (KStr k, v)) kvs))"
    using assms by (force simp: list_ex_iff)
  have b: "\<not> list_ex (\<lambda>k. \<not> is_KStr k) (map fst (map (\<lambda>(k, v). (KStr k, v)) kvs))"
    by (auto simp: list_ex_iff is_KStr_def)
  have c: "map (\<lambda>(k, v). (str_of_key k, v)) (map (\<lambda>(k, v). (KStr k, v)) kvs) = kvs"
    by (induction kvs) (auto simp: str_of_key_def)
  show ?thesis
    unfolding call_kw_def by (simp only: a b c if_False Let_def)
qed

text \<open>
  The body of \<^verbatim>\<open>_lambda_fn\<close> without a mapper, on a GET request, on a body that is false
  in Python's sense, and on a JSON object whose keys are new.
\<close>

lemma lambda_fn_no_mapper:
  assumes "lower (req_method r) \<noteq> ''get'' \<and> truthy (get_json r) \<longrightarrow>
             get_json r = PDict kvs \<and> distinct (map fst kvs) \<and>
             (\<forall>k \<in> set (map fst kvs). k \<notin> set (map fst kwargs))"
  shows "lambda_fn mapper_map jsonify r args fn None kwargs =
           (let kw = kwargs @ (if lower (req_method r) = ''get'' \<or> \<not> truthy (get_json r)
                               then [] else kvs)
            in ([(args, kw)], map_sum id Returned (fn args kw)))"
proof (cases "lower (req_method r) = ''get''")
  case True
  then show ?thesis by (simp add: lambda_fn_def call_kw_empty)
next
  case nonget: False
  show ?thesis
  proof (cases "truthy (get_json r)")
    case False
    then show ?thesis using nonget by (simp add: lambda_fn_def py_or_def call_kw_empty)
  next
    case True
    with nonget assms have body: "get_json r = PDict kvs" and d: "distinct (map fst kvs)"
      and disj: "\<forall>k \<in> set (map fst kvs). k \<notin> set (map fst kwargs)" by simp_all
    have "dict_update [] (PDict kvs) = Inr (map (\<lambda>(k, v). (KStr k, v)) kvs)"
      using fold_update_fresh [OF d, of "[]"] by simp
    then show ?thesis
      using nonget True body
      by (simp add: lambda_fn_def py_or_def call_kw_disjoint [OF disj] Let_def)
  qed
qed

text \<open>The forwarding call of the view function goes through when no keyword is taken.\<close>

lemma uc_forwards:
  "''fn'' \<notin> set (map fst kwargs) \<Longrightarrow> ''__mapper__'' \<notin> set (map fst kwargs) \<Longrightarrow>
     uc mapper_map jsonify r v args kwargs =
       lambda_fn mapper_map jsonify r args (view_fn v) (view_mapper v) kwargs"
  by (force simp: uc_def list_ex_iff)

lemma uc_rejects:
  "''fn'' \<in> set (map fst kwargs) \<or> ''__mapper__'' \<in> set (map fst kwargs) \<Longrightarrow>
     uc mapper_map jsonify r v args kwargs =
       ([], Inl (TypeError ''got multiple values for keyword argument''))"
  by (force simp: uc_def list_ex_iff)

text \<open>
  Claim C4, as amended. Without a mapper, for every request none of whose
  framework-supplied keyword arguments is named \<^verbatim>\<open>fn\<close> or \<^verbatim>\<open>__mapper__\<close>, and which is a
  GET request, or has a decoded JSON body that is false in Python's sense (absent, not
  valid JSON, or empty), or has a JSON object for its body none of whose keys is the name
  of a framework-supplied keyword argument: the adapter (the view function, through
  \<^verbatim>\<open>_lambda_fn\<close>) calls the use case exactly once, with the positional arguments it was
  given and with keyword arguments that are the framework's followed, only when the method
  is not GET (whatever its letter case), by the items of the body; a GET request never
  merges the body; and the adapter returns what the call returns, unmodified.
\<close>

theorem no_mapper_passthrough:
  assumes "''fn'' \<notin> set (map fst kwargs)"
      and "''__mapper__'' \<notin> set (map fst kwargs)"
      and "view_mapper v = None"
      and "lower (req_method r) \<noteq> ''get'' \<and> truthy (get_json r) \<longrightarrow>
             get_json r = PDict kvs \<and> distinct (map fst kvs) \<and>
             (\<forall>k \<in> set (map fst kvs). k \<notin> set (map fst kwargs))"
  shows "uc mapper_map jsonify r v args kwargs =
           (let kw = kwargs @ (if lower (req_method r) = ''get'' \<or> \<not> truthy (get_json r)
                               then [] else kvs)
            in ([(args, kw)], map_sum id Returned (view_fn v args kw)))"
  using lambda_fn_no_mapper [OF assms(4), of mapper_map jsonify args "view_fn v"]
  by (simp add: uc_forwards [OF assms(1,2)] assms(3))

theorem no_mapper_passthrough_witness:
  "''fn'' \<notin> set (map fst [(''id'', PInt 7)])
   \<and> ''__mapper__'' \<notin> set (map fst [(''id'', PInt 7)])
   \<and> lower ''POST'' \<noteq> ''get''
   \<and> truthy (PDict [(''name'', PStr ''Ada'')])
   \<and> distinct (map fst [(''name'', PStr ''Ada'')])
   \<and> list_all (\<lambda>k. k \<notin> set (map fst [(''id'', PInt 7)])) (map fst [(''name'', PStr ''Ada'')])
   \<and> uc (\<lambda>(m :: unit) snapshot. Inr snapshot) Inr
       \<lparr>req_method = ''POST'', get_json = PDict [(''name'', PStr ''Ada'')],
        view_args = Some [(''id'', PInt 7)], args_items = [], headers_items = []\<rparr>
       \<lparr>view_fn = echo, view_mapper = None\<rparr> [] [(''id'', PInt 7)] =
     ([([], [(''id'', PInt 7), (''name'', PStr ''Ada'')])],
      Inr (Returned ([], [(''id'', PInt 7), (''name'', PStr ''Ada'')])))"
  using no_mapper_passthrough
          [where r = "\<lparr>req_method = ''POST'', get_json = PDict [(''name'', PStr ''Ada'')],
                        view_args = Some [(''id'', PInt 7)], args_items = [], headers_items = []\<rparr>"
             and kvs = "[(''name'', PStr ''Ada'')]" and kwargs = "[(''id'', PInt 7)]"
             and v = "\<lparr>view_fn = echo, view_mapper = None\<rparr>" and args = "[]"
             and mapper_map = "\<lambda>(m :: unit) snapshot. Inr snapshot" and jsonify = Inr]
  by (simp add: lower_example echo_def Let_def)

text \<open>
  The claim as it stands speaks of every request. A POST whose body repeats the name of a
  path parameter is not passed on: Python rejects the call of the use case, which is not
  called. And on a route with a path parameter named \<^verbatim>\<open>fn\<close>, such as \<^verbatim>\<open>/files/{fn}\<close>,
  Python rejects the forwarding call of the view function on every request, a GET
  included.
\<close>

theorem no_mapper_collision_counterexample:
  "uc (\<lambda>(m :: unit) snapshot. Inr snapshot) Inr
     \<lparr>req_method = ''POST'', get_json = PDict [(''id'', PInt 9)],
      view_args = Some [(''id'', PInt 7)], args_items = [], headers_items = []\<rparr>
     \<lparr>view_fn = echo, view_mapper = None\<rparr> [] [(''id'', PInt 7)] =
   ([], Inl (TypeError ''got multiple values for keyword argument''))
   \<and> uc (\<lambda>(m :: unit) snapshot. Inr snapshot) Inr
       \<lparr>req_method = ''GET'', get_json = PNone,
        view_args = Some [(''fn'', PStr ''report.txt'')], args_items = [], headers_items = []\<rparr>
       \<lparr>view_fn = echo, view_mapper = None\<rparr> [] [(''fn'', PStr ''report.txt'')] =
     ([], Inl (TypeError ''got multiple values for keyword argument''))"
  by code_simp

text \<open>
  Claim C10. Without a mapper, for every request that is not a GET and whose decoded JSON
  body has a key equal to the name of a keyword argument supplied by the framework, the
  adapter's call raises the duplicate-keyword-argument \<^verbatim>\<open>TypeError\<close>: neither value
  replaces the other, and the use case is not called.
\<close>

theorem duplicate_keyword_rejected:
  assumes "lower (req_method r) \<noteq> ''get''"
      and "get_json r = PDict kvs"
      and "k \<in> set (map fst kvs)"
      and "k \<in> set (map fst kwargs)"
  shows "lambda_fn mapper_map jsonify r args fn None kwargs =
           ([], Inl (TypeError ''got multiple values for keyword argument''))"
proof -
  have ne: "kvs \<noteq> []" using assms(3) by auto
  obtain more where more: "dict_update [] (PDict kvs) = Inr more"
    and keys: "fst ` set more = KStr ` fst ` set kvs"
    using fold_update_keys [of kvs "[]"] by simp
  have "KStr k \<in> fst ` set more" using keys assms(3) by auto
  moreover have "KStr k \<in> set (map (KStr \<circ> fst) kwargs)" using assms(4) by auto
  ultimately have "list_ex (\<lambda>k. k \<in> set (map (KStr \<circ> fst) kwargs)) (map fst more)"
    unfolding list_ex_iff by force
  then have "call_kw fn args kwargs more =
               ([], Inl (TypeError ''got multiple values for keyword argument''))"
    by (simp add: call_kw_def)
  then show ?thesis
    using assms(1,2) ne more by (simp add: lambda_fn_def py_or_def)
qed

theorem duplicate_keyword_rejected_witness:
  "lower ''PUT'' \<noteq> ''get''
   \<and> ''user_id'' \<in> set (map fst [(''email'', PStr ''a@b.c''), (''user_id'', PInt 2)])
   \<and> ''user_id'' \<in> set (map fst [(''user_id'', PStr ''41'')])
   \<and> lambda_fn (\<lambda>(m :: unit) snapshot. Inr snapshot) Inr
       \<lparr>req_method = ''PUT'',
        get_json = PDict [(''email'', PStr ''a@b.c''), (''user_id'', PInt 2)],
        view_args = Some [(''user_id'', PStr ''41'')], args_items = [], headers_items = []\<rparr>
       [] echo None [(''user_id'', PStr ''41'')] =
     ([], Inl (TypeError ''got multiple values for keyword argument''))"
  using duplicate_keyword_rejected
          [where r = "\<lparr>req_method = ''PUT'',
                        get_json = PDict [(''email'', PStr ''a@b.c''), (''user_id'', PInt 2)],
                        view_args = Some [(''user_id'', PStr ''41'')], args_items = [],
                        headers_items = []\<rparr>"
             and kvs = "[(''email'', PStr ''a@b.c''), (''user_id'', PInt 2)]"
             and k = "''user_id''" and kwargs = "[(''user_id'', PStr ''41'')]"
             and fn = echo and args = "[]" and mapper_map = "\<lambda>(m :: unit) snapshot. Inr snapshot"
             and jsonify = Inr]
  by (simp add: lower_example)

text \<open>
  The two flat mappings of the snapshot have every key once, with its first value, a
  string.
\<close>

lemma to_dict_fold:
  "distinct (map fst d) \<Longrightarrow>
     distinct (map fst (fold (\<lambda>(k, v) d. if k \<in> set (map fst d) then d else d @ [(k, PStr v)]) items d))
     \<and> map_of (fold (\<lambda>(k, v) d. if k \<in> set (map fst d) then d else d @ [(k, PStr v)]) items d) key =
         (case map_of d key of Some v \<Rightarrow> Some v | None \<Rightarrow> map_option PStr (map_of items key))"
proof (induction items arbitrary: d)
  case Nil
  then show ?case by (simp split: option.splits)
next
  case (Cons kv items)
  obtain k v where kv: "kv = (k, v)" by (cases kv)
  show ?case
  proof (cases "k \<in> set (map fst d)")
    case True
    then obtain w where "map_of d k = Some w"
      by (metis map_of_eq_None_iff not_Some_eq set_map)
    then show ?thesis
      using Cons.IH [OF Cons.prems] True kv by (auto split: option.splits)
  next
    case False
    then have d': "distinct (map fst (d @ [(k, PStr v)]))" using Cons.prems by simp
    have none: "map_of d k = None" using False by (simp add: map_of_eq_None_iff)
    show ?thesis
      using Cons.IH [OF d'] False kv none
      by (auto simp: map_add_def split: option.splits)
  qed
qed

lemma to_dict_flat:
  "distinct (map fst (to_dict items))
   \<and> map_of (to_dict items) key = map_option PStr (map_of items key)"
  using to_dict_fold [of "[]" items key] by (simp add: to_dict_def)

text \<open>The body of \<^verbatim>\<open>_lambda_fn\<close> with a mapper.\<close>

lemma lambda_fn_mapper:
  "lambda_fn mapper_map jsonify r args fn (Some m) kwargs =
     (case mapper_map m
             [(''path_query'', PDict (case view_args r of None \<Rightarrow> [] | Some va \<Rightarrow> va)),
              (''body'', if truthy (get_json r) then get_json r else PDict []),
              (''params'', PDict (to_dict (args_items r))),
              (''headers'', PDict (dict_of_headers (headers_items r)))] of
        Inl e \<Rightarrow> ([], Inl e)
      | Inr kw \<Rightarrow>
          ([([], kw)],
           case fn [] kw of
             Inl e \<Rightarrow> Inl e
           | Inr res \<Rightarrow> map_sum id Jsonified (jsonify res)))"
proof -
  have va: "(case view_args r of None \<Rightarrow> [] | Some [] \<Rightarrow> [] | Some va \<Rightarrow> va) =
            (case view_args r of None \<Rightarrow> [] | Some va \<Rightarrow> va)"
    by (simp split: option.splits list.splits)
  show ?thesis
    by (simp add: lambda_fn_def va py_or_def call_kw_empty split: sum.splits)
qed

text \<open>
  Claim C5, as amended. With a mapper, for every request none of whose framework-supplied
  keyword arguments is named \<^verbatim>\<open>fn\<close> or \<^verbatim>\<open>__mapper__\<close>, the adapter (the view function,
  through \<^verbatim>\<open>_lambda_fn\<close>) builds a snapshot with exactly the four keys \<^verbatim>\<open>path_query\<close> (the
  path parameters, or the empty dictionary), \<^verbatim>\<open>body\<close> (the decoded JSON body, or the empty
  dictionary), \<^verbatim>\<open>params\<close> (the query parameters, one string for every key) and
  \<^verbatim>\<open>headers\<close> (the headers, one string for every key), and hands it to \<^verbatim>\<open>Mapper.map\<close>;
  with the keyword arguments that returns, it calls the use case exactly once, with no
  positional argument; and it returns \<^verbatim>\<open>jsonify\<close> of the value the use case returns. An
  exception of the mapper, of the use case or of \<^verbatim>\<open>jsonify\<close> is passed on.
\<close>

theorem mapper_mode_adapter:
  assumes "''fn'' \<notin> set (map fst kwargs)"
      and "''__mapper__'' \<notin> set (map fst kwargs)"
      and "view_mapper v = Some m"
  shows "uc mapper_map jsonify r v args kwargs =
     (case mapper_map m
             [(''path_query'', PDict (case view_args r of None \<Rightarrow> [] | Some va \<Rightarrow> va)),
              (''body'', if truthy (get_json r) then get_json r else PDict []),
              (''params'', PDict (to_dict (args_items r))),
              (''headers'', PDict (dict_of_headers (headers_items r)))] of
        Inl e \<Rightarrow> ([], Inl e)
      | Inr kw \<Rightarrow>
          ([([], kw)],
           case view_fn v [] kw of
             Inl e \<Rightarrow> Inl e
           | Inr res \<Rightarrow> map_sum id Jsonified (jsonify res)))
   \<and> distinct (map fst (to_dict (args_items r)))
   \<and> map_of (to_dict (args_items r)) key = map_option PStr (map_of (args_items r) key)
   \<and> distinct (map fst (dict_of_headers (headers_items r)))
   \<and> map_of (dict_of_headers (headers_items r)) key =
       map_option PStr (map_of (headers_items r) key)"
  by (simp add: uc_forwards [OF assms(1,2)] assms(3) lambda_fn_mapper to_dict_flat
        dict_of_headers_def)

theorem mapper_mode_adapter_witness:
  "''fn'' \<notin> set (map fst [(''id'', PInt 7)])
   \<and> ''__mapper__'' \<notin> set (map fst [(''id'', PInt 7)])
   \<and> uc (\<lambda>(m :: unit) snapshot. Inr snapshot) Inr
       \<lparr>req_method = ''POST'', get_json = PDict [(''name'', PStr ''Ada'')],
        view_args = Some [(''id'', PInt 7)],
        args_items = [(''tag'', ''a''), (''tag'', ''b'')],
        headers_items = [(''Accept'', ''text/plain'')]\<rparr>
       \<lparr>view_fn = echo, view_mapper = Some ()\<rparr> [] [(''id'', PInt 7)] =
     ([([], [(''path_query'', PDict [(''id'', PInt 7)]),
             (''body'', PDict [(''name'', PStr ''Ada'')]),
             (''params'', PDict [(''tag'', PStr ''a'')]),
             (''headers'', PDict [(''Accept'', PStr ''text/plain'')])])],
      Inr (Jsonified ([], [(''path_query'', PDict [(''id'', PInt 7)]),
                           (''body'', PDict [(''name'', PStr ''Ada'')]),
                           (''params'', PDict [(''tag'', PStr ''a'')]),
                           (''headers'', PDict [(''Accept'', PStr ''text/plain'')])])))"
  using mapper_mode_adapter
          [where r = "\<lparr>req_method = ''POST'', get_json = PDict [(''name'', PStr ''Ada'')],
                        view_args = Some [(''id'', PInt 7)],
                        args_items = [(''tag'', ''a''), (''tag'', ''b'')],
                        headers_items = [(''Accept'', ''text/plain'')]\<rparr>"
             and kwargs = "[(''id'', PInt 7)]"
             and v = "\<lparr>view_fn = echo, view_mapper = Some ()\<rparr>" and m = "()" and args = "[]"
             and mapper_map = "\<lambda>(m :: unit) snapshot. Inr snapshot" and jsonify = Inr
             and key = "''tag''"]
  by (simp add: echo_def to_dict_def dict_of_headers_def)

text \<open>
  The claim as it stands speaks of every request. On a route with a path parameter named
  \<^verbatim>\<open>fn\<close>, such as \<^verbatim>\<open>/files/{fn}\<close>, Python rejects the forwarding call of the view
  function: no snapshot is built and the use case is not called.
\<close>

theorem mapper_mode_parameter_name_counterexample:
  "uc (\<lambda>(m :: unit) snapshot. Inr snapshot) Inr
     \<lparr>req_method = ''GET'', get_json = PNone,
      view_args = Some [(''fn'', PStr ''report.txt'')], args_items = [], headers_items = []\<rparr>
     \<lparr>view_fn = echo, view_mapper = Some ()\<rparr> [] [(''fn'', PStr ''report.txt'')] =
   ([], Inl (TypeError ''got multiple values for keyword argument''))"
  by code_simp

section \<open>The code generator\<close>

text \<open>
  Claim C8. For every class-based use-case-code-info with keyname \<open>k\<close>, module \<open>m\<close> and class
  name \<open>c\<close>, the generated construct has the name \<^verbatim>\<open><k>_uc\<close>, a build text that contains
  the instantiation \<^verbatim>\<open>c()\<close>, and an import table that maps \<open>m\<close> to a set containing \<open>c\<close>; in
  particular \<^verbatim>\<open>my_use_case_cls\<close>, \<^verbatim>\<open>my_module\<close>, \<^verbatim>\<open>MyUseCase\<close> give the name
  \<^verbatim>\<open>my_use_case_cls_uc\<close>, a build text containing \<^verbatim>\<open>MyUseCase()\<close>, and the table entry of
  \<^verbatim>\<open>my_module\<close> with \<^verbatim>\<open>MyUseCase\<close>.
\<close>

theorem class_use_case_code_build:
  "(\<exists>cd. generate_use_case_code_build (UseCaseCodeInfoClass k docs m c) = Inr (k @ ''_uc'', cd)
         \<and> sublist (c @ ''()'') (build cd)
         \<and> (\<exists>S. importing cd m = Some S \<and> c \<in> S))
   \<and> (\<exists>cd. generate_use_case_code_build
               (UseCaseCodeInfoClass ''my_use_case_cls'' ''docs'' ''my_module'' ''MyUseCase'') =
             Inr (''my_use_case_cls_uc'', cd)
         \<and> sublist ''MyUseCase()'' (build cd)
         \<and> importing cd ''my_module'' = Some {''MyUseCase''})"
proof -
  have "k @ ''_uc = '' @ c @ ''()'' = (k @ ''_uc = '') @ (c @ ''()'') @ []" for k c :: string
    by simp
  then have sub: "sublist (c @ ''()'') (k @ ''_uc = '' @ c @ ''()'')" for k c :: string
    unfolding sublist_def by blast
  show ?thesis
    using sub [where k = k and c = c]
      sub [where k = "''my_use_case_cls''" and c = "''MyUseCase''"]
    by simp
qed

end
